theory Spec2Isabelle
  imports Main
begin

section \<open>Go values used by package gox\<close>

text \<open>
  A Go \<^verbatim>\<open>error\<close> is an interface value: either \<^verbatim>\<open>nil\<close> or a value with an
  \<^verbatim>\<open>Error() string\<close> method. A non-nil error is an \<open>error\<close> below and the
  interface is \<open>error option\<close>, with \<open>None\<close> for \<^verbatim>\<open>nil\<close>. Two kinds of error
  values occur: the aggregate \<^verbatim>\<open>*MultiError\<close> of errors.go, and every other error,
  which the library only ever asks for its message (\<open>errorString\<close> carries it).
\<close>

datatype error = errorString string | MultiErrorPtr MultiError
  and MultiError = MultiError (errors: "error list")

text \<open>
  What a \<^verbatim>\<open>panic\<close> carries: the error passed to \<^verbatim>\<open>panic(r.err)\<close>, a string
  literal, or a run-time error raised by an index, slice or \<^verbatim>\<open>make\<close> expression.
  An operation that can panic returns \<open>panic + 'a\<close>, with \<open>Inl\<close> for the panic.
\<close>

datatype panic = PanicError error | PanicString string | RuntimeError string

text \<open>
  A slice is \<^verbatim>\<open>nil\<close> or holds a sequence of elements; an empty slice that is not
  \<^verbatim>\<open>nil\<close> is \<open>Slice []\<close>. Capacity and the sharing of backing arrays are not
  represented: the functions below never write to a slice they were given.
\<close>

datatype 'a slice = nil | Slice "'a list"

fun elems :: "'a slice \<Rightarrow> 'a list" where
  "elems nil = []"
| "elems (Slice xs) = xs"

definition len :: "'a slice \<Rightarrow> int" where
  "len s = int (length (elems s))"

text \<open>
  The zero value of a type is the member \<open>default\<close> of class \<open>default\<close>:
  \<^verbatim>\<open>0\<close> for \<^verbatim>\<open>int\<close>, \<^verbatim>\<open>false\<close>, the empty string, \<^verbatim>\<open>nil\<close> for a slice and for
  an interface.
\<close>

instantiation int :: default
begin
definition default_int :: int where "default_int = 0"
instance ..
end

instantiation bool :: default
begin
definition default_bool :: bool where "default_bool = False"
instance ..
end

instantiation list :: (type) default
begin
definition default_list :: "'a list" where "default_list = []"
instance ..
end

instantiation slice :: (type) default
begin
definition default_slice :: "'a slice" where "default_slice = nil"
instance ..
end

instantiation option :: (type) default
begin
definition default_option :: "'a option" where "default_option = None"
instance ..
end

text \<open>
  Index, slice and \<^verbatim>\<open>make\<close> expressions with the run-time checks Go performs:
  \<open>index s i\<close> is \<^verbatim>\<open>s[i]\<close>, \<open>store s i v\<close> is \<^verbatim>\<open>s[i] = v\<close>, \<open>slice_expr s lo hi\<close> is
  \<^verbatim>\<open>s[lo:hi]\<close>, \<open>make_slice n\<close> is \<^verbatim>\<open>make([]T, n)\<close> (filled with zero values) and
  \<open>make_slice_cap c\<close> is \<^verbatim>\<open>make([]T, 0, c)\<close>. The upper bound of a slice expression
  is checked against the length (the code never slices beyond it).

  Of the checks of \<^verbatim>\<open>make\<close> only the one for a negative length or capacity is
  represented. Go's \<^verbatim>\<open>make\<close> also panics when the length times the element size
  exceeds what the runtime can allocate; that limit depends on the platform and on the
  element type and has no counterpart here. So \<open>Inr\<close> from \<open>make_slice\<close> says only
  that the length was not negative. The theorems that state that an operation returns a
  value for every input rely on it only where the length asked for is the length of a
  slice the caller already holds and the element is that slice's element or a pair of
  the two inputs' elements (\<^verbatim>\<open>Reverse\<close>, \<^verbatim>\<open>Zip\<close>, \<^verbatim>\<open>Unzip\<close>). For \<^verbatim>\<open>Map\<close>, whose
  result elements can be larger than its input's, only the results for a nil and for
  an empty input are stated as properties of the code.
\<close>

definition index :: "'a slice \<Rightarrow> int \<Rightarrow> panic + 'a" where
  "index s i =
     (if 0 \<le> i \<and> i < len s then Inr (elems s ! nat i)
      else Inl (RuntimeError ''index out of range''))"

definition store :: "'a slice \<Rightarrow> int \<Rightarrow> 'a \<Rightarrow> panic + 'a slice" where
  "store s i v =
     (if 0 \<le> i \<and> i < len s then Inr (Slice ((elems s)[nat i := v]))
      else Inl (RuntimeError ''index out of range''))"

definition slice_expr :: "'a slice \<Rightarrow> int \<Rightarrow> int \<Rightarrow> panic + 'a slice" where
  "slice_expr s lo hi =
     (if 0 \<le> lo \<and> lo \<le> hi \<and> hi \<le> len s
      then Inr (case s of nil \<Rightarrow> nil
                | Slice xs \<Rightarrow> Slice (take (nat (hi - lo)) (drop (nat lo) xs)))
      else Inl (RuntimeError ''slice bounds out of range''))"

definition make_slice :: "int \<Rightarrow> panic + ('a::default) slice" where
  "make_slice n =
     (if n < 0 then Inl (RuntimeError ''makeslice: len out of range'')
      else Inr (Slice (replicate (nat n) default)))"

definition make_slice_cap :: "int \<Rightarrow> panic + 'a slice" where
  "make_slice_cap c =
     (if c < 0 then Inl (RuntimeError ''makeslice: cap out of range'') else Inr (Slice []))"

text \<open>
  \<^verbatim>\<open>append(s, xs...)\<close>: appending nothing to \<^verbatim>\<open>nil\<close> gives \<^verbatim>\<open>nil\<close>, every other
  result is a non-nil slice.
\<close>

definition append_slice :: "'a slice \<Rightarrow> 'a list \<Rightarrow> 'a slice" where
  "append_slice s xs =
     (case s of nil \<Rightarrow> (if xs = [] then nil else Slice xs) | Slice ys \<Rightarrow> Slice (ys @ xs))"

text \<open>
  The pairs \<^verbatim>\<open>for i, item := range items\<close> visits, and the indices
  \<^verbatim>\<open>for i := range n\<close> visits.
\<close>

definition range_slice :: "'a slice \<Rightarrow> (int \<times> 'a) list" where
  "range_slice s = zip (map int [0..<length (elems s)]) (elems s)"

definition range_int :: "int \<Rightarrow> int list" where
  "range_int n = map int [0..<nat n]"

text \<open>Sequencing of operations that may panic: the first panic is the result.\<close>

definition bind_panic :: "panic + 'a \<Rightarrow> ('a \<Rightarrow> panic + 'b) \<Rightarrow> panic + 'b" where
  "bind_panic m f = (case m of Inl p \<Rightarrow> Inl p | Inr v \<Rightarrow> f v)"

definition panics :: "panic + 'a \<Rightarrow> bool" where
  "panics m = (case m of Inl p \<Rightarrow> True | Inr v \<Rightarrow> False)"

text \<open>
  Go's \<^verbatim>\<open>int\<close> is 64 bits wide on the platforms the module builds for. Its values
  are the integers from \<open>- 2 ^ 63\<close> up to \<open>2 ^ 63 - 1\<close>; \<^verbatim>\<open>+\<close> and \<^verbatim>\<open>-\<close> wrap around
  in two's complement and never panic, and \<^verbatim>\<open>/\<close> truncates towards zero (it is only
  used with a divisor that is not zero). Where both operands are bounded by the length
  of a slice no wrap-around can happen and the operation is written as the one on
  \<open>int\<close>.
\<close>

definition wrap64 :: "int \<Rightarrow> int" where
  "wrap64 x = (x + 2 ^ 63) mod 2 ^ 64 - 2 ^ 63"

definition add_int :: "int \<Rightarrow> int \<Rightarrow> int" where
  "add_int a b = wrap64 (a + b)"

definition sub_int :: "int \<Rightarrow> int \<Rightarrow> int" where
  "sub_int a b = wrap64 (a - b)"

definition quo_int :: "int \<Rightarrow> int \<Rightarrow> int" where
  "quo_int a b = wrap64 (sgn a * sgn b * (\<bar>a\<bar> div \<bar>b\<bar>))"

section \<open>result.go\<close>

text \<open>
  \<^verbatim>\<open>type Result[T any] struct { data T; err error }\<close>
\<close>

record 'a Result =
  data :: 'a
  err :: "error option"

instantiation Result_ext :: (default, default) default
begin
definition default_Result_ext :: "('a, 'b) Result_ext" where
  "default_Result_ext = Result_ext default None default"
instance ..
end

definition ROk :: "'a \<Rightarrow> 'a Result" where
  "ROk d = \<lparr>data = d, err = None\<rparr>"

definition RErr :: "error option \<Rightarrow> ('a::default) Result" where
  "RErr e = \<lparr>data = default, err = e\<rparr>"

definition IsOk :: "'a Result \<Rightarrow> bool" where
  "IsOk r = (err r = None)"

definition IsErr :: "'a Result \<Rightarrow> bool" where
  "IsErr r = (err r \<noteq> None)"

definition Unwrap :: "'a Result \<Rightarrow> panic + 'a" where
  "Unwrap r = (case err r of Some e \<Rightarrow> Inl (PanicError e) | None \<Rightarrow> Inr (data r))"

definition UnwrapErr :: "'a Result \<Rightarrow> panic + error" where
  "UnwrapErr r =
     (case err r of None \<Rightarrow> Inl (PanicString ''called UnwrapErr on an Ok value'')
      | Some e \<Rightarrow> Inr e)"

text \<open>
  A function value passed to a combinator is a Go closure: besides returning a value it
  may read and write the variables it captured. Such a callback is a function from the
  captured state \<open>'s\<close> to the returned value and the new state, and a combinator that
  takes one passes the state through. A callback without effects is the case
  \<open>\<lambda>s. (v, s)\<close>.
\<close>

definition AndThen :: "'a Result \<Rightarrow> ('a \<Rightarrow> 's \<Rightarrow> 'a Result \<times> 's) \<Rightarrow> 's \<Rightarrow> 'a Result \<times> 's" where
  "AndThen r fn s = (if err r \<noteq> None then (r, s) else fn (data r) s)"

definition AndThenTo ::
    "'a Result \<Rightarrow> ('a \<Rightarrow> 's \<Rightarrow> ('b::default) Result \<times> 's) \<Rightarrow> 's \<Rightarrow> 'b Result \<times> 's" where
  "AndThenTo r fn s = (if err r \<noteq> None then (RErr (err r), s) else fn (data r) s)"

text \<open>
  \<^verbatim>\<open>Collect\<close>: \<open>data\<close> starts as the empty, non-nil \<^verbatim>\<open>make([]T, 0, len(results))\<close>;
  the loop returns at the first element whose \<open>err\<close> is set.
\<close>

fun Collect_loop :: "'a Result list \<Rightarrow> 'a list \<Rightarrow> 'a slice Result" where
  "Collect_loop [] acc = ROk (Slice acc)"
| "Collect_loop (r # rest) acc =
     (if err r \<noteq> None then RErr (err r) else Collect_loop rest (acc @ [data r]))"

definition Collect_Result :: "'a Result slice \<Rightarrow> 'a slice Result" where
  "Collect_Result results = Collect_loop (elems results) []"

section \<open>optional.go\<close>

text \<open>
  \<^verbatim>\<open>type Optional[T any] struct { value T; valid bool }\<close>
\<close>

record 'a Optional =
  "value" :: 'a
  valid :: bool

definition OSome :: "'a \<Rightarrow> 'a Optional" where
  "OSome v = \<lparr>value = v, valid = True\<rparr>"

definition ONone :: "('a::default) Optional" where
  "ONone = \<lparr>value = default, valid = False\<rparr>"

definition IsSome :: "'a Optional \<Rightarrow> bool" where
  "IsSome opt = valid opt"

definition IsNone :: "'a Optional \<Rightarrow> bool" where
  "IsNone opt = (\<not> valid opt)"

definition Optional_Get :: "'a Optional \<Rightarrow> 'a \<times> bool" where
  "Optional_Get opt = (value opt, valid opt)"

definition MustGet :: "'a Optional \<Rightarrow> panic + 'a" where
  "MustGet opt = (if \<not> valid opt then Inl (PanicString ''called MustGet on None'') else Inr (value opt))"

definition Optional_Map :: "'a Optional \<Rightarrow> ('a \<Rightarrow> 's \<Rightarrow> 'a \<times> 's) \<Rightarrow> 's \<Rightarrow> 'a Optional \<times> 's" where
  "Optional_Map opt fn s =
     (if \<not> valid opt then (opt, s) else (case fn (value opt) s of (v, s') \<Rightarrow> (OSome v, s')))"

text \<open>A callback that only computes: it returns \<open>f v\<close> and leaves the state alone.\<close>

definition pure_fn :: "('a \<Rightarrow> 'b) \<Rightarrow> 'a \<Rightarrow> 's \<Rightarrow> 'b \<times> 's" where
  "pure_fn f v s = (f v, s)"

section \<open>errors.go\<close>

text \<open>
  \<^verbatim>\<open>type MultiError struct { errors []error }\<close> is the datatype \<open>MultiError\<close> declared
  with \<open>error\<close> above. The methods have a pointer receiver; the model passes the
  aggregate's contents, and a method that appends returns the new contents. The field
  only ever holds non-nil errors (\<^verbatim>\<open>Add\<close> and \<^verbatim>\<open>AddAll\<close> skip nil), so it is an
  \<open>error list\<close>.
\<close>

definition NewMultiError :: MultiError where
  "NewMultiError = MultiError []"

definition Add :: "MultiError \<Rightarrow> error option \<Rightarrow> MultiError" where
  "Add m e = (case e of Some e' \<Rightarrow> MultiError (errors m @ [e']) | None \<Rightarrow> m)"

fun AddAll :: "MultiError \<Rightarrow> error option list \<Rightarrow> MultiError" where
  "AddAll m [] = m"
| "AddAll m (e # errs) =
     AddAll (case e of Some e' \<Rightarrow> MultiError (errors m @ [e']) | None \<Rightarrow> m) errs"

definition HasErrors :: "MultiError \<Rightarrow> bool" where
  "HasErrors m = (length (errors m) > 0)"

text \<open>
  \<^verbatim>\<open>fmt.Sprintf("%d errors: ", n)\<close> writes \<open>n\<close> in decimal, with a minus sign when
  negative.
\<close>

fun decimal :: "nat \<Rightarrow> string" where
  "decimal n =
     (if n < 10 then [''0123456789'' ! n]
      else decimal (n div 10) @ [''0123456789'' ! (n mod 10)])"

definition Sprintf_d_errors :: "int \<Rightarrow> string" where
  "Sprintf_d_errors n =
     (if n < 0 then ''-'' @ decimal (nat (- n)) else decimal (nat n)) @ '' errors: ''"

text \<open>
  \<^verbatim>\<open>Error\<close> of the \<^verbatim>\<open>error\<close> interface dispatches on the value; for the aggregate
  it is \<^verbatim>\<open>(*MultiError).Error\<close>, whose loop over \<^verbatim>\<open>m.errors\<close> is \<open>Error_loop\<close>
  (index \<open>i\<close>, message so far \<open>msg\<close>).
\<close>

fun Error_loop :: "error list \<Rightarrow> int \<Rightarrow> string \<Rightarrow> string"
  and error_Error :: "error \<Rightarrow> string"
  and MultiError_Error :: "MultiError \<Rightarrow> string" where
  "Error_loop [] i msg = msg"
| "Error_loop (e # rest) i msg =
     Error_loop rest (i + 1) ((if i > 0 then msg @ ''; '' else msg) @ error_Error e)"
| "error_Error (errorString s) = s"
| "error_Error (MultiErrorPtr m) = MultiError_Error m"
| "MultiError_Error (MultiError []) = ''''"
| "MultiError_Error (MultiError [e]) = error_Error e"
| "MultiError_Error (MultiError (e # e' # es)) =
     Error_loop (e # e' # es) 0 (Sprintf_d_errors (int (length (e # e' # es))))"

definition ErrorOrNil :: "MultiError \<Rightarrow> error option" where
  "ErrorOrNil m = (if \<not> HasErrors m then None else Some (MultiErrorPtr m))"

section \<open>fp.go\<close>

fun Map_loop :: "('a \<Rightarrow> 'b) \<Rightarrow> (int \<times> 'a) list \<Rightarrow> 'b slice \<Rightarrow> panic + 'b slice" where
  "Map_loop fn [] result = Inr result"
| "Map_loop fn ((i, item) # rest) result =
     bind_panic (store result i (fn item)) (Map_loop fn rest)"

definition Map :: "'a slice \<Rightarrow> ('a \<Rightarrow> 'b::default) \<Rightarrow> panic + 'b slice" where
  "Map items fn =
     (if items = nil then Inr nil
      else bind_panic (make_slice (len items)) (Map_loop fn (range_slice items)))"

fun Filter_loop :: "('a \<Rightarrow> bool) \<Rightarrow> 'a list \<Rightarrow> 'a slice \<Rightarrow> 'a slice" where
  "Filter_loop fn [] result = result"
| "Filter_loop fn (item # rest) result =
     Filter_loop fn rest (if fn item then append_slice result [item] else result)"

definition Filter :: "'a slice \<Rightarrow> ('a \<Rightarrow> bool) \<Rightarrow> 'a slice" where
  "Filter items fn = (if items = nil then nil else Filter_loop fn (elems items) (Slice []))"

text \<open>A \<^verbatim>\<open>map[T]struct{}\<close> used as a set is a map to \<open>unit\<close>.\<close>

fun Unique_loop :: "'a list \<Rightarrow> ('a \<rightharpoonup> unit) \<Rightarrow> 'a slice \<Rightarrow> 'a slice" where
  "Unique_loop [] seen result = result"
| "Unique_loop (item # rest) seen result =
     (if seen item = None
      then Unique_loop rest (seen(item \<mapsto> ())) (append_slice result [item])
      else Unique_loop rest seen result)"

definition Unique :: "'a slice \<Rightarrow> 'a slice" where
  "Unique items = (if items = nil then nil else Unique_loop (elems items) Map.empty (Slice []))"

text \<open>
  \<^verbatim>\<open>Chunk\<close>. The loop \<^verbatim>\<open>for i := 0; i < len(items); i += size\<close> is \<open>Chunk_loop\<close>;
  taken by itself it need not terminate (it does not for \<^verbatim>\<open>size == 0\<close>), so it
  returns an \<open>option\<close> and \<open>None\<close> stands for running forever. The capacity passed to
  \<^verbatim>\<open>make\<close> is \<^verbatim>\<open>(len(items)+size-1)/size\<close>.
\<close>

partial_function (option) Chunk_loop ::
    "'a slice \<Rightarrow> int \<Rightarrow> int \<Rightarrow> 'a slice slice \<Rightarrow> (panic + 'a slice slice) option" where
  "Chunk_loop items size' i result =
     (if i < len items then
        (let end' = add_int i size';
             end' = (if end' > len items then len items else end')
         in case slice_expr items i end' of
              Inl p \<Rightarrow> Some (Inl p)
            | Inr chunk \<Rightarrow>
                Chunk_loop items size' (add_int i size') (append_slice result [chunk]))
      else Some (Inr result))"

declare Chunk_loop.simps [code]

definition Chunk :: "'a slice \<Rightarrow> int \<Rightarrow> (panic + 'a slice slice) option" where
  "Chunk items size' =
     (if size' \<le> 0 \<or> len items = 0 then Some (Inr nil)
      else case make_slice_cap (quo_int (sub_int (add_int (len items) size') 1) size') of
             Inl p \<Rightarrow> Some (Inl p)
           | Inr result \<Rightarrow> Chunk_loop items size' 0 result)"

fun Flatten_loop :: "'a slice list \<Rightarrow> 'a slice \<Rightarrow> 'a slice" where
  "Flatten_loop [] result = result"
| "Flatten_loop (inner # rest) result = Flatten_loop rest (append_slice result (elems inner))"

definition Flatten :: "'a slice slice \<Rightarrow> 'a slice" where
  "Flatten items = (if items = nil then nil else Flatten_loop (elems items) (Slice []))"

definition First_elem :: "('a::default) slice \<Rightarrow> panic + 'a \<times> bool" where
  "First_elem items =
     (if len items = 0 then Inr (default, False)
      else bind_panic (index items 0) (\<lambda>v. Inr (v, True)))"

definition Last :: "('a::default) slice \<Rightarrow> panic + 'a \<times> bool" where
  "Last items =
     (if len items = 0 then Inr (default, False)
      else bind_panic (index items (len items - 1)) (\<lambda>v. Inr (v, True)))"

fun Reverse_loop :: "'a slice \<Rightarrow> int list \<Rightarrow> int \<Rightarrow> 'a slice \<Rightarrow> panic + 'a slice" where
  "Reverse_loop items [] j result = Inr result"
| "Reverse_loop items (i # rest) j result =
     bind_panic (index items j) (\<lambda>v.
     bind_panic (store result i v) (Reverse_loop items rest (j - 1)))"

definition Reverse :: "('a::default) slice \<Rightarrow> panic + 'a slice" where
  "Reverse items =
     (if items = nil then Inr nil
      else bind_panic (make_slice (len items))
             (Reverse_loop items (range_int (len items)) (len items - 1)))"

section \<open>set.go\<close>

text \<open>
  The loop \<^verbatim>\<open>for _, item := range b { set[item] = struct{}{} }\<close>. Keys are compared
  with HOL's equality, which is Go's \<^verbatim>\<open>==\<close> on the comparable types where \<^verbatim>\<open>==\<close> is
  reflexive and cannot panic (all but floating-point NaN and interface values).
\<close>

fun set_of_loop :: "'a list \<Rightarrow> ('a \<rightharpoonup> unit) \<Rightarrow> ('a \<rightharpoonup> unit)" where
  "set_of_loop [] set' = set'"
| "set_of_loop (item # rest) set' = set_of_loop rest (set'(item \<mapsto> ()))"

fun Intersect_loop ::
    "'a list \<Rightarrow> ('a \<rightharpoonup> unit) \<Rightarrow> ('a \<rightharpoonup> unit) \<Rightarrow> 'a slice \<Rightarrow> 'a slice" where
  "Intersect_loop [] set' seen result = result"
| "Intersect_loop (item # rest) set' seen result =
     (if set' item \<noteq> None then
        (if seen item = None
         then Intersect_loop rest set' (seen(item \<mapsto> ())) (append_slice result [item])
         else Intersect_loop rest set' seen result)
      else Intersect_loop rest set' seen result)"

definition Intersect :: "'a slice \<Rightarrow> 'a slice \<Rightarrow> 'a slice" where
  "Intersect a b =
     (if len a = 0 \<or> len b = 0 then Slice []
      else Intersect_loop (elems a) (set_of_loop (elems b) Map.empty) Map.empty (Slice []))"

fun Difference_loop :: "'a list \<Rightarrow> ('a \<rightharpoonup> unit) \<Rightarrow> 'a slice \<Rightarrow> 'a slice" where
  "Difference_loop [] set' result = result"
| "Difference_loop (item # rest) set' result =
     Difference_loop rest set' (if set' item = None then append_slice result [item] else result)"

definition Difference :: "'a slice \<Rightarrow> 'a slice \<Rightarrow> 'a slice" where
  "Difference a b =
     (if len a = 0 then Slice []
      else if len b = 0 then append_slice (Slice []) (elems a)
      else Difference_loop (elems a) (set_of_loop (elems b) Map.empty) (Slice []))"

fun IsSubset_loop :: "'a list \<Rightarrow> ('a \<rightharpoonup> unit) \<Rightarrow> bool" where
  "IsSubset_loop [] set' = True"
| "IsSubset_loop (item # rest) set' = (if set' item = None then False else IsSubset_loop rest set')"

definition IsSubset :: "'a slice \<Rightarrow> 'a slice \<Rightarrow> bool" where
  "IsSubset a b =
     (if len a = 0 then True
      else if len b = 0 then False
      else IsSubset_loop (elems a) (set_of_loop (elems b) Map.empty))"

text \<open>\<^verbatim>\<open>struct { First T; Second U }\<close>\<close>

record ('t, 'u) pair =
  First :: 't
  Second :: 'u

instantiation pair_ext :: (default, default, default) default
begin
definition default_pair_ext :: "('a, 'b, 'c) pair_ext" where
  "default_pair_ext = pair_ext default default default"
instance ..
end

fun Zip_loop ::
    "'t slice \<Rightarrow> 'u slice \<Rightarrow> int list \<Rightarrow> ('t, 'u) pair slice \<Rightarrow> panic + ('t, 'u) pair slice" where
  "Zip_loop a b [] result = Inr result"
| "Zip_loop a b (i # rest) result =
     bind_panic (index a i) (\<lambda>x.
     bind_panic (index b i) (\<lambda>y.
     bind_panic (store result i \<lparr>First = x, Second = y\<rparr>) (Zip_loop a b rest)))"

definition Zip :: "('t::default) slice \<Rightarrow> ('u::default) slice \<Rightarrow> panic + ('t, 'u) pair slice" where
  "Zip a b =
     (let length = min (len a) (len b)
      in bind_panic (make_slice length) (Zip_loop a b (range_int length)))"

fun Unzip_loop ::
    "(int \<times> ('t, 'u) pair) list \<Rightarrow> 't slice \<Rightarrow> 'u slice \<Rightarrow> panic + ('t slice \<times> 'u slice)" where
  "Unzip_loop [] a b = Inr (a, b)"
| "Unzip_loop ((i, pair) # rest) a b =
     bind_panic (store a i (First pair)) (\<lambda>a'.
     bind_panic (store b i (Second pair)) (\<lambda>b'. Unzip_loop rest a' b'))"

definition Unzip ::
    "('t::default, 'u::default) pair slice \<Rightarrow> panic + ('t slice \<times> 'u slice)" where
  "Unzip pairs =
     bind_panic (make_slice (len pairs)) (\<lambda>a.
     bind_panic (make_slice (len pairs)) (\<lambda>b. Unzip_loop (range_slice pairs) a b))"

section \<open>Numeric reducers\<close>

fun Max_loop :: "('a::linorder) list \<Rightarrow> 'a \<Rightarrow> 'a" where
  "Max_loop [] max' = max'"
| "Max_loop (item # rest) max' = Max_loop rest (if item > max' then item else max')"

definition Max_items :: "('a::linorder) slice \<Rightarrow> panic + 'a" where
  "Max_items items =
     (if len items = 0 then Inl (PanicString ''Max requires at least one argument'')
      else bind_panic (index items 0) (\<lambda>max'.
           bind_panic (slice_expr items 1 (len items)) (\<lambda>tail.
           Inr (Max_loop (elems tail) max'))))"

definition MaxSlice :: "('a::{linorder,default}) slice \<Rightarrow> panic + 'a \<times> bool" where
  "MaxSlice items =
     (if len items = 0 then Inr (default, False)
      else bind_panic (index items 0) (\<lambda>max'.
           bind_panic (slice_expr items 1 (len items)) (\<lambda>tail.
           Inr (Max_loop (elems tail) max', True))))"

fun Min_loop :: "('a::linorder) list \<Rightarrow> 'a \<Rightarrow> 'a" where
  "Min_loop [] min' = min'"
| "Min_loop (item # rest) min' = Min_loop rest (if item < min' then item else min')"

definition Min_items :: "('a::linorder) slice \<Rightarrow> panic + 'a" where
  "Min_items items =
     (if len items = 0 then Inl (PanicString ''Min requires at least one argument'')
      else bind_panic (index items 0) (\<lambda>min'.
           bind_panic (slice_expr items 1 (len items)) (\<lambda>tail.
           Inr (Min_loop (elems tail) min'))))"

definition MinSlice :: "('a::{linorder,default}) slice \<Rightarrow> panic + 'a \<times> bool" where
  "MinSlice items =
     (if len items = 0 then Inr (default, False)
      else bind_panic (index items 0) (\<lambda>min'.
           bind_panic (slice_expr items 1 (len items)) (\<lambda>tail.
           Inr (Min_loop (elems tail) min', True))))"

section \<open>Reference definitions from the specification\<close>

text \<open>
  The rendering the specification describes for an aggregate's message, for comparison
  with \<open>Error_loop\<close>: the messages joined with a separator.
\<close>

fun joined_with :: "string \<Rightarrow> string list \<Rightarrow> string" where
  "joined_with sep [] = ''''"
| "joined_with sep [x] = x"
| "joined_with sep (x # y # ys) = x @ sep @ joined_with sep (y # ys)"

text \<open>
  The grouping the specification describes for \<^verbatim>\<open>Chunk\<close>, for comparison with
  \<open>Chunk_loop\<close>: consecutive groups of \<open>n\<close> elements, the last one holding what is left.
\<close>

fun chunks_of :: "nat \<Rightarrow> 'a list \<Rightarrow> 'a list list" where
  "chunks_of n xs = (if n = 0 \<or> xs = [] then [] else take n xs # chunks_of n (drop n xs))"

declare chunks_of.simps [simp del]

section \<open>Facts about the run-time operations\<close>

lemma bind_panic_Inr [simp]: "bind_panic (Inr v) f = f v"
  by (simp add: bind_panic_def)

lemma bind_panic_Inl [simp]: "bind_panic (Inl p) f = Inl p"
  by (simp add: bind_panic_def)

lemma panics_simps [simp]: "panics (Inl p)" "\<not> panics (Inr v)"
  by (simp_all add: panics_def)

lemma len_nil [simp]: "len nil = 0"
  by (simp add: len_def)

lemma len_Slice [simp]: "len (Slice xs) = int (length xs)"
  by (simp add: len_def)

lemma len_eq_0_iff: "len s = 0 \<longleftrightarrow> elems s = []"
  by (simp add: len_def)

lemma append_slice_Slice [simp]: "append_slice (Slice ys) xs = Slice (ys @ xs)"
  by (simp add: append_slice_def)

lemma store_Slice:
  "k < length res \<Longrightarrow> store (Slice res) (int k) v = Inr (Slice (res[k := v]))"
  by (simp add: store_def)

lemma index_nth:
  "k < length (elems s) \<Longrightarrow> index s (int k) = Inr (elems s ! k)"
  by (simp add: index_def len_def)

lemma make_slice_nat [simp]:
  "make_slice (int n) = Inr (Slice (replicate n default))"
  by (simp add: make_slice_def)

lemma wrap64_id: "- (2 ^ 63) \<le> x \<Longrightarrow> x < 2 ^ 63 \<Longrightarrow> wrap64 x = x"
  by (simp add: wrap64_def)

lemma index_first: "len items \<noteq> 0 \<Longrightarrow> index items 0 = Inr (hd (elems items))"
  by (cases "elems items") (simp_all add: index_def len_def)

lemma index_last: "len items \<noteq> 0 \<Longrightarrow> index items (len items - 1) = Inr (last (elems items))"
proof -
  assume "len items \<noteq> 0"
  then have ne: "elems items \<noteq> []" by (simp add: len_def)
  then have "nat (len items - 1) = length (elems items) - 1"
    by (simp add: len_def)
  with ne show ?thesis
    by (simp add: index_def len_def last_conv_nth)
qed

lemma slice_expr_tail:
  "len items \<noteq> 0 \<Longrightarrow> slice_expr items 1 (len items) = Inr (Slice (tl (elems items)))"
proof -
  assume "len items \<noteq> 0"
  then obtain x xs where items: "items = Slice (x # xs)"
    by (cases items; cases "elems items") simp_all
  show ?thesis by (simp add: items slice_expr_def)
qed

section \<open>Properties of Result\<close>

lemma Collect_loop_all_ok:
  "\<forall>r \<in> set rs. err r = None \<Longrightarrow> Collect_loop rs acc = ROk (Slice (acc @ map data rs))"
  by (induction rs arbitrary: acc) simp_all

lemma Collect_loop_first_failure:
  "\<forall>r \<in> set pre. err r = None \<Longrightarrow> err r \<noteq> None \<Longrightarrow>
     Collect_loop (pre @ r # post) acc = RErr (err r)"
  by (induction pre arbitrary: acc) simp_all

text \<open>
  C1. \<^verbatim>\<open>Collect\<close> returns the first failure in sequence order, wrapping exactly that
  element's error whatever follows it, and when no element is a failure it returns a
  success wrapping all the values in their original order.
\<close>

theorem Collect_first_failure_or_all_values:
  "((\<forall>r \<in> set pre. IsOk r) \<and> IsErr r \<longrightarrow>
      Collect_Result (Slice (pre @ r # post)) = RErr (err r)) \<and>
   ((\<exists>r \<in> set (elems results). IsErr r) \<longrightarrow>
      (\<exists>pre r post. elems results = pre @ r # post \<and> (\<forall>x \<in> set pre. IsOk x) \<and> IsErr r \<and>
         Collect_Result results = RErr (err r))) \<and>
   ((\<forall>r \<in> set (elems results). IsOk r) \<longrightarrow>
      Collect_Result results = ROk (Slice (map data (elems results))))"
proof (intro conjI impI)
  assume "(\<forall>r \<in> set pre. IsOk r) \<and> IsErr r"
  then show "Collect_Result (Slice (pre @ r # post)) = RErr (err r)"
    by (simp add: Collect_Result_def IsOk_def IsErr_def Collect_loop_first_failure)
next
  assume "\<exists>r \<in> set (elems results). IsErr r"
  from split_list_first_prop [OF this]
  obtain pre r post where split: "elems results = pre @ r # post"
    and r: "IsErr r" and pre: "\<forall>x \<in> set pre. \<not> IsErr x"
    by blast
  from pre r have "Collect_loop (pre @ r # post) [] = RErr (err r)"
    by (intro Collect_loop_first_failure) (simp_all add: IsErr_def)
  with split r pre
  show "\<exists>pre r post. elems results = pre @ r # post \<and> (\<forall>x \<in> set pre. IsOk x) \<and> IsErr r \<and>
      Collect_Result results = RErr (err r)"
    unfolding Collect_Result_def IsOk_def IsErr_def by auto
next
  assume "\<forall>r \<in> set (elems results). IsOk r"
  then show "Collect_Result results = ROk (Slice (map data (elems results)))"
    by (simp add: Collect_Result_def IsOk_def Collect_loop_all_ok)
qed

theorem Collect_first_failure_or_all_values_witness:
  "Collect_Result (Slice [ROk (1::int), RErr (Some (errorString ''e'')), ROk 3,
       RErr (Some (errorString ''later''))])
     = RErr (Some (errorString ''e'')) \<and>
   Collect_Result (Slice [ROk (1::int), ROk 2, ROk 3]) = ROk (Slice [1, 2, 3])"
  using Collect_first_failure_or_all_values
    [of "[ROk (1::int)]" "RErr (Some (errorString ''e''))"
        "[ROk 3, RErr (Some (errorString ''later''))]"
        "Slice [ROk (1::int), ROk 2, ROk 3]"]
  by (simp add: IsOk_def IsErr_def ROk_def RErr_def del: bex_simps)

text \<open>
  C3. On a failure, \<^verbatim>\<open>AndThen\<close> returns the receiver unchanged and does not call its
  argument: whatever the callback is, the state it could have changed is returned as it
  was, so any two callbacks give the same result.
\<close>

theorem AndThen_failure_skips_callback:
  "IsErr r \<Longrightarrow> AndThen r fn s = (r, s) \<and> AndThen r fn1 s = AndThen r fn2 s"
  by (simp add: AndThen_def IsErr_def)

theorem AndThen_failure_skips_callback_witness:
  "IsErr (RErr (Some (errorString ''boom'')) :: int Result) \<and>
   AndThen (RErr (Some (errorString ''boom''))) (\<lambda>v calls. (ROk (v + 1), Suc calls)) (0::nat)
     = (RErr (Some (errorString ''boom'')) :: int Result, 0)"
  using AndThen_failure_skips_callback
    [of "RErr (Some (errorString ''boom'')) :: int Result"
        "\<lambda>v calls. (ROk (v + 1), Suc calls)" "0::nat"]
  by (simp add: IsErr_def RErr_def)

lemma AndThenTo_failure_skips_callback:
  "IsErr r \<Longrightarrow> AndThenTo r fn s = (RErr (err r), s)"
  by (simp add: AndThenTo_def IsErr_def)

text \<open>
  C10. Whether a Result is a success is read off its \<open>err\<close> field alone: a Result built
  by \<^verbatim>\<open>RErr\<close> from a nil error is a success, and \<^verbatim>\<open>Unwrap\<close> returns the zero value
  of the data type instead of panicking.
\<close>

theorem RErr_nil_is_ok:
  "IsOk (RErr None :: ('a::default) Result) \<and>
   \<not> IsErr (RErr None :: 'a Result) \<and>
   Unwrap (RErr None :: 'a Result) = Inr default \<and>
   IsOk r = (err r = None) \<and> IsErr r = (\<not> IsOk r)"
  by (simp add: IsOk_def IsErr_def Unwrap_def RErr_def)

section \<open>Properties of Optional\<close>

text \<open>
  C7. On a present Optional with value \<open>v\<close>, \<^verbatim>\<open>Map\<close> with a function \<open>f\<close> gives a
  present Optional holding \<open>f v\<close>, so \<^verbatim>\<open>Get\<close> of it is \<open>(f v, true)\<close>; on an absent
  Optional, \<^verbatim>\<open>Map\<close> returns it as it is, still absent, and the callback is not
  called: the state any callback could have changed comes back unchanged.
\<close>

theorem Optional_Map_present_absent:
  "(IsSome opt \<longrightarrow>
      fst (Optional_Map opt (pure_fn f) s) = OSome (f (value opt)) \<and>
      IsSome (fst (Optional_Map opt (pure_fn f) s)) \<and>
      Optional_Get (fst (Optional_Map opt (pure_fn f) s)) = (f (fst (Optional_Get opt)), True)) \<and>
   (IsSome opt \<longrightarrow>
      Optional_Map opt fn s = (OSome (fst (fn (value opt) s)), snd (fn (value opt) s))) \<and>
   (IsNone opt \<longrightarrow>
      Optional_Map opt fn s = (opt, s) \<and> IsNone (fst (Optional_Map opt fn s)))"
  by (simp add: Optional_Map_def IsSome_def IsNone_def pure_fn_def Optional_Get_def OSome_def
      split: prod.split)

theorem Optional_Map_present_absent_witness:
  "IsSome (OSome (20::int)) \<and>
   Optional_Get (fst (Optional_Map (OSome (20::int)) (pure_fn (\<lambda>n. n * 2 + 2)) ())) = (42, True) \<and>
   IsNone (ONone :: int Optional) \<and>
   Optional_Map (ONone :: int Optional) (\<lambda>v calls. (v + 1, Suc calls)) (0::nat) = (ONone, 0)"
proof -
  have some: "IsSome (OSome (20::int))" and none: "IsNone (ONone :: int Optional)"
    by (simp_all add: IsSome_def IsNone_def OSome_def ONone_def)
  have v: "fst (Optional_Get (OSome (20::int))) * 2 + 2 = 42"
    by (simp add: Optional_Get_def OSome_def)
  from some v
    Optional_Map_present_absent
      [of "OSome (20::int)" "\<lambda>n. n * 2 + 2" "()" "pure_fn (\<lambda>n. n * 2 + 2)"]
  have "Optional_Get (fst (Optional_Map (OSome (20::int)) (pure_fn (\<lambda>n. n * 2 + 2)) ()))
      = (42, True)"
    by (simp add: OSome_def Optional_Get_def pure_fn_def)
  moreover from none
    Optional_Map_present_absent
      [of "ONone :: int Optional" "\<lambda>n. n" "0::nat" "\<lambda>v calls. (v + 1, Suc calls)"]
  have "Optional_Map (ONone :: int Optional) (\<lambda>v calls. (v + 1, Suc calls)) (0::nat)
      = (ONone, 0)"
    by (simp add: ONone_def)
  ultimately show ?thesis using some none by simp
qed

section \<open>Properties of MultiError\<close>

lemma Error_loop_after_first:
  "0 < i \<Longrightarrow> Error_loop es i msg = msg @ concat (map (\<lambda>e. ''; '' @ error_Error e) es)"
proof (induction es arbitrary: i msg)
  case Nil
  then show ?case by simp
next
  case (Cons e es)
  from Cons.prems have "0 < i + 1" by simp
  from Cons.IH [OF this] Cons.prems show ?case by simp
qed

lemma joined_with_Cons:
  "joined_with sep (x # xs) = x @ concat (map (\<lambda>y. sep @ y) xs)"
  by (induction xs arbitrary: x) simp_all

lemma Error_loop_joined:
  "Error_loop (e # es) 0 msg = msg @ joined_with ''; '' (map error_Error (e # es))"
proof -
  have "Error_loop (e # es) 0 msg = Error_loop es 1 (msg @ error_Error e)"
    by simp
  also have "\<dots> = (msg @ error_Error e) @ concat (map (\<lambda>e. ''; '' @ error_Error e) es)"
    by (rule Error_loop_after_first) simp
  also have "\<dots> = msg @ joined_with ''; '' (map error_Error (e # es))"
    by (simp add: joined_with_Cons comp_def)
  finally show ?thesis .
qed

text \<open>
  C6. With no recorded error \<^verbatim>\<open>Error\<close> is the empty string and \<^verbatim>\<open>ErrorOrNil\<close> is
  nil; with one, \<^verbatim>\<open>Error\<close> is that error's message; with \<open>n \<ge> 2\<close> it is \<open>n\<close> in
  decimal, then \<open>'' errors: ''\<close>, then the messages in insertion order joined with
  \<open>''; ''\<close>; and with at least one, \<^verbatim>\<open>ErrorOrNil\<close> is the aggregate itself.
\<close>

theorem MultiError_Error_rendering:
  "(length (errors m) = 0 \<longrightarrow> MultiError_Error m = '''' \<and> ErrorOrNil m = None) \<and>
   (length (errors m) = 1 \<longrightarrow> MultiError_Error m = error_Error (hd (errors m))) \<and>
   (length (errors m) \<ge> 2 \<longrightarrow>
      MultiError_Error m =
        decimal (length (errors m)) @ '' errors: '' @
        joined_with ''; '' (map error_Error (errors m))) \<and>
   (length (errors m) > 0 \<longrightarrow> ErrorOrNil m = Some (MultiErrorPtr m))"
proof -
  obtain es where m: "m = MultiError es" by (cases m)
  show ?thesis
  proof (cases es)
    case Nil
    with m show ?thesis by (simp add: ErrorOrNil_def HasErrors_def)
  next
    case outer: (Cons e es')
    show ?thesis
    proof (cases es')
      case Nil
      with m outer show ?thesis by (simp add: ErrorOrNil_def HasErrors_def)
    next
      case (Cons e' es'')
      with m outer have es: "errors m = e # e' # es''" by simp
      have "MultiError_Error m =
          Error_loop (errors m) 0 (Sprintf_d_errors (int (length (errors m))))"
        unfolding es unfolding m outer Cons by (simp only: MultiError_Error.simps)
      also have "\<dots> = Sprintf_d_errors (int (length (errors m))) @
          joined_with ''; '' (map error_Error (errors m))"
        unfolding es by (rule Error_loop_joined)
      finally have "MultiError_Error m = decimal (length (errors m)) @ '' errors: '' @
          joined_with ''; '' (map error_Error (errors m))"
        by (simp add: Sprintf_d_errors_def del: decimal.simps)
      then show ?thesis
        by (simp add: es ErrorOrNil_def HasErrors_def
            del: decimal.simps Error_loop.simps joined_with.simps)
    qed
  qed
qed

theorem MultiError_Error_rendering_witness:
  "MultiError_Error (MultiError []) = '''' \<and> ErrorOrNil (MultiError []) = None \<and>
   MultiError_Error (MultiError [errorString ''e1'']) = ''e1'' \<and>
   MultiError_Error (MultiError [errorString ''e1'', errorString ''e2'', errorString ''e3''])
     = ''3 errors: e1; e2; e3'' \<and>
   ErrorOrNil (MultiError [errorString ''e1'', errorString ''e2'', errorString ''e3''])
     = Some (MultiErrorPtr (MultiError [errorString ''e1'', errorString ''e2'', errorString ''e3'']))"
  using MultiError_Error_rendering [of "MultiError []"]
    MultiError_Error_rendering [of "MultiError [errorString ''e1'']"]
    MultiError_Error_rendering
      [of "MultiError [errorString ''e1'', errorString ''e2'', errorString ''e3'']"]
  by simp

section \<open>Properties of the collection combinators\<close>

subsection \<open>Absent and empty results\<close>

lemma Map_loop_fills:
  "k + length xs \<le> length res \<Longrightarrow>
   Map_loop fn (zip (map int [k..<k + length xs]) xs) (Slice res) =
     Inr (Slice (take k res @ map fn xs @ drop (k + length xs) res))"
proof (induction xs arbitrary: k res)
  case Nil
  then show ?case by simp
next
  case (Cons x xs)
  from Cons.prems have k: "k < length res" by simp
  have "k < k + length (x # xs)" by simp
  from upt_conv_Cons [OF this]
  have up: "[k..<k + length (x # xs)] = k # [Suc k..<Suc k + length xs]"
    by simp
  from Cons.prems have "Suc k + length xs \<le> length (res[k := fn x])" by simp
  from Cons.IH [OF this] k show ?case
    unfolding up
    by (simp add: store_Slice take_Suc_conv_app_nth)
qed

lemma Map_result:
  "Map items fn = Inr (case items of nil \<Rightarrow> nil | Slice xs \<Rightarrow> Slice (map fn xs))"
proof (cases items)
  case nil
  then show ?thesis by (simp add: Map_def)
next
  case (Slice xs)
  have "Map_loop fn (zip (map int [0..<0 + length xs]) xs) (Slice (replicate (length xs) default))
      = Inr (Slice (map fn xs))"
    by (subst Map_loop_fills) simp_all
  with Slice show ?thesis by (simp add: Map_def range_slice_def)
qed

lemma Filter_loop_Slice:
  "Filter_loop fn xs (Slice acc) = Slice (acc @ filter fn xs)"
  by (induction xs arbitrary: acc) simp_all

lemma Filter_result:
  "Filter items fn = (case items of nil \<Rightarrow> nil | Slice xs \<Rightarrow> Slice (filter fn xs))"
  by (cases items) (simp_all add: Filter_def Filter_loop_Slice)

lemma Unique_loop_Slice:
  "\<exists>ys. Unique_loop xs seen (Slice acc) = Slice ys"
  by (induction xs arbitrary: seen acc) simp_all

lemma Unique_nil_iff: "Unique items = nil \<longleftrightarrow> items = nil"
proof (cases items)
  case nil
  then show ?thesis by (simp add: Unique_def)
next
  case (Slice xs)
  obtain ys where "Unique_loop xs Map.empty (Slice []) = Slice ys"
    using Unique_loop_Slice by blast
  with Slice show ?thesis by (simp add: Unique_def)
qed

lemma Flatten_loop_Slice:
  "Flatten_loop xss (Slice acc) = Slice (acc @ concat (map elems xss))"
  by (induction xss arbitrary: acc) simp_all

lemma Flatten_result:
  "Flatten items =
     (case items of nil \<Rightarrow> nil | Slice xss \<Rightarrow> Slice (concat (map elems xss)))"
  by (cases items) (simp_all add: Flatten_def Flatten_loop_Slice)

lemma Intersect_loop_Slice:
  "\<exists>ys. Intersect_loop xs m seen (Slice acc) = Slice ys"
  by (induction xs arbitrary: seen acc) simp_all

lemma Intersect_not_nil: "Intersect a b \<noteq> nil"
proof -
  obtain ys where
    "Intersect_loop (elems a) (set_of_loop (elems b) Map.empty) Map.empty (Slice []) = Slice ys"
    using Intersect_loop_Slice by blast
  then show ?thesis by (simp add: Intersect_def)
qed

lemma Difference_loop_Slice:
  "Difference_loop xs m (Slice acc) = Slice (acc @ filter (\<lambda>x. m x = None) xs)"
  by (induction xs arbitrary: acc) simp_all

lemma Difference_not_nil: "Difference a b \<noteq> nil"
  by (simp add: Difference_def Difference_loop_Slice)

text \<open>
  C4, as stated, fails: \<^verbatim>\<open>Intersect\<close> and \<^verbatim>\<open>Difference\<close> answer a nil input with
  the empty, non-nil \<^verbatim>\<open>[]T{}\<close>.
\<close>

theorem Intersect_Difference_nil_input_not_nil:
  "Intersect (nil :: int slice) (Slice [1, 2]) = Slice [] \<and>
   Intersect (nil :: int slice) (Slice [1, 2]) \<noteq> nil \<and>
   Difference (nil :: int slice) (Slice [1, 2]) = Slice [] \<and>
   Difference (nil :: int slice) (Slice [1, 2]) \<noteq> nil"
  by (simp add: Intersect_def Difference_def)

text \<open>
  C4, amended. \<^verbatim>\<open>Map\<close>, \<^verbatim>\<open>Filter\<close>, \<^verbatim>\<open>Unique\<close> and \<^verbatim>\<open>Flatten\<close> keep the
  difference between an absent and an empty input: the result is nil exactly when the
  input is nil, and an empty non-nil input gives an empty non-nil result.
  \<^verbatim>\<open>Intersect\<close> and \<^verbatim>\<open>Difference\<close> do not keep it: they never return nil, and
  they return the empty non-nil slice when an input of \<^verbatim>\<open>Intersect\<close>, or the first
  input of \<^verbatim>\<open>Difference\<close>, is nil or empty.
\<close>

theorem absent_and_empty_results:
  "(Map items fn = Inr nil) = (items = nil) \<and> Map (Slice []) fn = Inr (Slice []) \<and>
   (Filter items p = nil) = (items = nil) \<and> Filter (Slice []) p = Slice [] \<and>
   (Unique items = nil) = (items = nil) \<and> Unique (Slice []) = Slice [] \<and>
   (Flatten xss = nil) = (xss = nil) \<and> Flatten (Slice []) = Slice [] \<and>
   Intersect a b \<noteq> nil \<and> Difference a b \<noteq> nil \<and>
   (len a = 0 \<or> len b = 0 \<longrightarrow> Intersect a b = Slice []) \<and>
   (len a = 0 \<longrightarrow> Difference a b = Slice [])"
proof -
  have "(Map items fn = Inr nil) = (items = nil)" "Map (Slice []) fn = Inr (Slice [])"
    by (simp_all add: Map_result split: slice.split)
  moreover have "(Filter items p = nil) = (items = nil)" "Filter (Slice []) p = Slice []"
    by (simp_all add: Filter_result split: slice.split)
  moreover have "(Unique items = nil) = (items = nil)" "Unique (Slice []) = Slice []"
    by (simp_all add: Unique_nil_iff) (simp add: Unique_def)
  moreover have "(Flatten xss = nil) = (xss = nil)" "Flatten (Slice []) = Slice []"
    by (simp_all add: Flatten_result split: slice.split)
  moreover have "len a = 0 \<or> len b = 0 \<longrightarrow> Intersect a b = Slice []"
    by (simp add: Intersect_def)
  moreover have "len a = 0 \<longrightarrow> Difference a b = Slice []"
    by (simp add: Difference_def)
  ultimately show ?thesis
    using Intersect_not_nil [of a b] Difference_not_nil [of a b] by blast
qed

theorem absent_and_empty_results_witness:
  "Map (nil :: int slice) (\<lambda>n. n + 1) = Inr nil \<and>
   Map (Slice [] :: int slice) (\<lambda>n. n + 1) = Inr (Slice []) \<and>
   Filter (nil :: int slice) (\<lambda>n. 0 < n) = nil \<and>
   Unique (nil :: int slice) = nil \<and>
   Flatten (nil :: int slice slice) = nil \<and>
   len (nil :: int slice) = 0 \<and>
   Intersect (nil :: int slice) (Slice [1, 2]) = Slice [] \<and>
   Difference (nil :: int slice) (Slice [1, 2]) = Slice []"
proof -
  have "len (nil :: int slice) = 0" by simp
  with absent_and_empty_results
    [of "nil :: int slice" "\<lambda>n. n + 1" "\<lambda>n. 0 < n" "nil :: int slice slice"
        "nil :: int slice" "Slice [1, 2]"]
  show ?thesis by blast
qed

subsection \<open>Chunk\<close>

lemma chunks_of_Nil [simp]: "chunks_of n [] = []"
  by (simp add: chunks_of.simps)

lemma chunks_of_step:
  "0 < n \<Longrightarrow> xs \<noteq> [] \<Longrightarrow> chunks_of n xs = take n xs # chunks_of n (drop n xs)"
  by (subst chunks_of.simps) simp

lemma concat_chunks_of: "0 < n \<Longrightarrow> concat (chunks_of n xs) = xs"
proof (induction n xs rule: chunks_of.induct)
  case (1 n xs)
  then show ?case by (cases "xs = []") (simp_all add: chunks_of_step)
qed

lemma chunks_of_lengths:
  "0 < n \<Longrightarrow> c \<in> set (chunks_of n xs) \<Longrightarrow> 0 < length c \<and> length c \<le> n"
proof (induction n xs rule: chunks_of.induct)
  case (1 n xs)
  then show ?case by (cases "xs = []") (auto simp add: chunks_of_step)
qed

lemma chunks_of_butlast_full:
  "0 < n \<Longrightarrow> c \<in> set (butlast (chunks_of n xs)) \<Longrightarrow> length c = n"
proof (induction n xs rule: chunks_of.induct)
  case (1 n xs)
  show ?case
  proof (cases "xs = []")
    case True
    with 1 show ?thesis by simp
  next
    case False
    show ?thesis
    proof (cases "drop n xs = []")
      case True
      with 1 False show ?thesis by (simp add: chunks_of_step)
    next
      case more: False
      then have "n < length xs" by simp
      moreover from more 1(2) have "chunks_of n (drop n xs) \<noteq> []"
        by (simp add: chunks_of_step [of n "drop n xs"])
      ultimately show ?thesis
        using 1 False by (auto simp add: chunks_of_step [of n xs])
    qed
  qed
qed

lemma Chunk_loop_no_overflow:
  assumes size': "0 < size'" and bound: "len items + size' < 2 ^ 63"
  shows "0 \<le> i \<Longrightarrow> Chunk_loop items size' i (Slice acc) =
    Some (Inr (Slice (acc @ map Slice (chunks_of (nat size') (drop (nat i) (elems items))))))"
proof (induction "nat (len items - i)" arbitrary: i acc rule: less_induct)
  case less
  show ?case
  proof (cases "i < len items")
    case False
    then have "drop (nat i) (elems items) = []" by (simp add: len_def)
    with False show ?thesis by (subst Chunk_loop.simps) simp
  next
    case True
    with less.prems obtain xs where items: "items = Slice xs"
      by (cases items) simp_all
    let ?ys = "drop (nat i) xs"
    from True less.prems have ys: "?ys \<noteq> []" by (simp add: items)
    from True less.prems size' bound have add: "add_int i size' = i + size'"
      by (simp add: add_int_def wrap64_id)
    let ?end = "if len items < i + size' then len items else i + size'"
    have "take (nat (?end - i)) ?ys = take (nat size') ?ys"
      using True less.prems size' by (auto simp add: items)
    with True less.prems size'
    have chunk: "slice_expr items i ?end = Inr (Slice (take (nat size') ?ys))"
      by (simp add: slice_expr_def items)
    have "nat (len items - (i + size')) < nat (len items - i)"
      using True size' by simp
    moreover have "0 \<le> i + size'" using less.prems size' by simp
    ultimately have IH:
      "Chunk_loop items size' (i + size') (Slice (acc @ [Slice (take (nat size') ?ys)])) =
        Some (Inr (Slice ((acc @ [Slice (take (nat size') ?ys)]) @
          map Slice (chunks_of (nat size') (drop (nat (i + size')) (elems items))))))"
      by (rule less.hyps)
    have "drop (nat (i + size')) xs = drop (nat size') ?ys"
      using less.prems size' by (simp add: nat_add_distrib add.commute)
    with ys size' have step: "chunks_of (nat size') ?ys =
        take (nat size') ?ys # chunks_of (nat size') (drop (nat (i + size')) xs)"
      by (simp add: chunks_of_step)
    show ?thesis
      by (subst Chunk_loop.simps) (simp add: True add chunk IH Let_def, simp add: items step)
  qed
qed

text \<open>
  Where the capacity \<^verbatim>\<open>(len(items)+size-1)/size\<close> is computed without wrap-around,
  \<^verbatim>\<open>Chunk\<close> returns, and returns the groups the specification describes.
\<close>

lemma Chunk_no_overflow:
  assumes "0 < size'" and "len items \<noteq> 0" and "len items + size' < 2 ^ 63"
  shows "Chunk items size' = Some (Inr (Slice (map Slice (chunks_of (nat size') (elems items)))))"
proof -
  have len: "0 < len items" using assms(2) by (simp add: len_def)
  with assms have 1: "add_int (len items) size' = len items + size'"
    by (simp add: add_int_def wrap64_id)
  from len assms have 2: "sub_int (len items + size') 1 = len items + size' - 1"
    by (simp add: sub_int_def wrap64_id)
  have nonneg: "0 \<le> (len items + size' - 1) div size'"
    using len assms(1) by (simp add: pos_imp_zdiv_nonneg_iff)
  moreover have "(len items + size' - 1) div size' \<le> len items + size' - 1"
    using zdiv_mono2 [of "len items + size' - 1" 1 size'] len assms(1) by simp
  ultimately have 3: "quo_int (len items + size' - 1) size' = (len items + size' - 1) div size'"
    using len assms by (simp add: quo_int_def wrap64_id)
  have "make_slice_cap (quo_int (sub_int (add_int (len items) size') 1) size')
      = (Inr (Slice []) :: panic + 'a slice slice)"
    unfolding 1 2 3 using nonneg by (simp add: make_slice_cap_def)
  with assms show ?thesis
    by (simp add: Chunk_def Chunk_loop_no_overflow [OF assms(1) assms(3), of 0 "[]", simplified])
qed

lemma Chunk_groups_without_overflow:
  assumes "0 < size'" and "len items \<noteq> 0" and "len items + size' < 2 ^ 63"
  shows "\<exists>groups. Chunk items size' = Some (Inr (Slice (map Slice groups))) \<and>
    concat groups = elems items \<and> groups \<noteq> [] \<and>
    (\<forall>g \<in> set (butlast groups). length g = nat size') \<and>
    0 < length (last groups) \<and> length (last groups) \<le> nat size'"
proof -
  let ?n = "nat size'"
  let ?gs = "chunks_of ?n (elems items)"
  from assms(1) have n: "0 < ?n" by simp
  from assms(2) have ne: "elems items \<noteq> []" by (simp add: len_def)
  with n have gs: "?gs \<noteq> []" by (simp add: chunks_of_step)
  then have "last ?gs \<in> set ?gs" by simp
  from chunks_of_lengths [OF n this]
  have "0 < length (last ?gs) \<and> length (last ?gs) \<le> ?n" .
  moreover have "concat ?gs = elems items" using n by (rule concat_chunks_of)
  moreover have "\<forall>g \<in> set (butlast ?gs). length g = ?n"
    using chunks_of_butlast_full [OF n] by blast
  moreover note gs Chunk_no_overflow [OF assms]
  ultimately show ?thesis by blast
qed

lemma Chunk_no_result:
  "size' \<le> 0 \<or> len items = 0 \<Longrightarrow> Chunk items size' = Some (Inr nil)"
  by (simp add: Chunk_def)

lemma Chunk_example:
  "Chunk (Slice [1, 2, 3, 4, 5, 6, 7 :: int]) 3 =
     Some (Inr (Slice [Slice [1, 2, 3], Slice [4, 5, 6], Slice [7]]))"
  by (simp add: Chunk_def add_int_def sub_int_def quo_int_def wrap64_def make_slice_cap_def
      Chunk_loop.simps slice_expr_def)

text \<open>
  C5. For \<^verbatim>\<open>size <= 0\<close> or an empty input \<^verbatim>\<open>Chunk\<close> returns nil
  (\<open>Chunk_no_result\<close>), and otherwise it is to return the consecutive groups of
  \<open>size\<close> elements. It does while \<^verbatim>\<open>len(items)+size-1\<close> fits an \<^verbatim>\<open>int\<close>
  (\<open>Chunk_groups_without_overflow\<close>). It does not for every \<open>size\<close>: on the two
  elements \<open>[1, 2]\<close> with \<open>size = 2 ^ 63 - 1\<close>, the largest \<^verbatim>\<open>int\<close>, the sum
  \<^verbatim>\<open>len(items)+size-1\<close> wraps around to \<open>- 2 ^ 63\<close>, the capacity is \<open>-1\<close> and
  \<^verbatim>\<open>make\<close> panics, where the claim asks for the single group \<open>[1, 2]\<close>.
\<close>

theorem Chunk_capacity_overflow:
  "Chunk (Slice [1, 2 :: int]) 9223372036854775807 =
     Some (Inl (RuntimeError ''makeslice: cap out of range'')) \<and>
   quo_int (sub_int (add_int (len (Slice [1, 2 :: int])) 9223372036854775807) 1)
     9223372036854775807 = - 1"
  by (simp add: Chunk_def add_int_def sub_int_def quo_int_def wrap64_def make_slice_cap_def)

subsection \<open>Zip and Unzip\<close>

lemma Zip_loop_fills:
  "n \<le> length (elems a) \<Longrightarrow> n \<le> length (elems b) \<Longrightarrow> n \<le> length res \<Longrightarrow> k \<le> n \<Longrightarrow>
   Zip_loop a b (map int [k..<n]) (Slice res) =
     Inr (Slice (take k res @
       map (\<lambda>i. \<lparr>First = elems a ! i, Second = elems b ! i\<rparr>) [k..<n] @ drop n res))"
proof (induction "n - k" arbitrary: k res)
  case 0
  then show ?case by simp
next
  case (Suc d)
  then have k: "k < n" by simp
  with Suc.prems have bounds: "k < length (elems a)" "k < length (elems b)" "k < length res"
    by simp_all
  let ?p = "\<lparr>First = elems a ! k, Second = elems b ! k\<rparr>"
  have d: "d = n - Suc k" using Suc.hyps(2) by simp
  have n': "n \<le> length (res[k := ?p])" using Suc.prems by simp
  have k': "Suc k \<le> n" using k by simp
  note IH = Suc.hyps(1) [OF d Suc.prems(1) Suc.prems(2) n' k']
  from k have up: "[k..<n] = k # [Suc k..<n]" by (rule upt_conv_Cons)
  show ?case
    unfolding up using bounds k
    by (simp add: index_nth store_Slice IH take_Suc_conv_app_nth)
qed

lemma Zip_result:
  "Zip a b = Inr (Slice (map (\<lambda>i. \<lparr>First = elems a ! i, Second = elems b ! i\<rparr>)
     [0..<min (length (elems a)) (length (elems b))]))"
proof -
  let ?n = "min (length (elems a)) (length (elems b))"
  have n: "min (len a) (len b) = int ?n" by (simp add: len_def)
  have "Zip_loop a b (map int [0..<?n]) (Slice (replicate ?n default)) =
      Inr (Slice (map (\<lambda>i. \<lparr>First = elems a ! i, Second = elems b ! i\<rparr>) [0..<?n]))"
    by (subst Zip_loop_fills) simp_all
  then show ?thesis
    unfolding Zip_def n by (simp add: range_int_def Let_def)
qed

lemma Unzip_loop_fills:
  "k + length ps \<le> length ra \<Longrightarrow> k + length ps \<le> length rb \<Longrightarrow>
   Unzip_loop (zip (map int [k..<k + length ps]) ps) (Slice ra) (Slice rb) =
     Inr (Slice (take k ra @ map First ps @ drop (k + length ps) ra),
          Slice (take k rb @ map Second ps @ drop (k + length ps) rb))"
proof (induction ps arbitrary: k ra rb)
  case Nil
  then show ?case by simp
next
  case (Cons p ps)
  from Cons.prems have k: "k < length ra" "k < length rb" by simp_all
  have "k < k + length (p # ps)" by simp
  from upt_conv_Cons [OF this]
  have up: "[k..<k + length (p # ps)] = k # [Suc k..<Suc k + length ps]"
    by simp
  from Cons.prems have "Suc k + length ps \<le> length (ra[k := First p])"
    and "Suc k + length ps \<le> length (rb[k := Second p])" by simp_all
  from Cons.IH [OF this] k show ?case
    unfolding up
    by (simp add: store_Slice take_Suc_conv_app_nth)
qed

lemma Unzip_result:
  "Unzip pairs = Inr (Slice (map First (elems pairs)), Slice (map Second (elems pairs)))"
proof -
  let ?ps = "elems pairs"
  have "Unzip_loop (zip (map int [0..<0 + length ?ps]) ?ps)
      (Slice (replicate (length ?ps) default)) (Slice (replicate (length ?ps) default))
      = Inr (Slice (map First ?ps), Slice (map Second ?ps))"
    by (subst Unzip_loop_fills) simp_all
  then show ?thesis by (simp add: Unzip_def range_slice_def len_def)
qed

lemma map_nth_take: "n \<le> length xs \<Longrightarrow> map (\<lambda>i. xs ! i) [0..<n] = take n xs"
  by (rule nth_equalityI) simp_all

text \<open>
  C8. \<^verbatim>\<open>Zip\<close> returns as many pairs as the shorter input has elements, the pair at
  index \<open>i\<close> holds the elements of \<open>a\<close> and \<open>b\<close> at index \<open>i\<close>, and \<^verbatim>\<open>Unzip\<close> of
  the result returns the elements of \<open>a\<close> and of \<open>b\<close> cut to that length, all of them
  when the inputs are equally long. (The slices \<^verbatim>\<open>Unzip\<close> returns are never nil.)
\<close>

theorem Zip_Unzip_truncate:
  "\<exists>ps. Zip a b = Inr (Slice ps) \<and>
     length ps = min (length (elems a)) (length (elems b)) \<and>
     (\<forall>i < length ps. ps ! i = \<lparr>First = elems a ! i, Second = elems b ! i\<rparr>) \<and>
     Unzip (Slice ps) =
       Inr (Slice (take (length ps) (elems a)), Slice (take (length ps) (elems b))) \<and>
     (length (elems a) = length (elems b) \<longrightarrow>
       Unzip (Slice ps) = Inr (Slice (elems a), Slice (elems b)))"
proof -
  let ?n = "min (length (elems a)) (length (elems b))"
  let ?ps = "map (\<lambda>i. \<lparr>First = elems a ! i, Second = elems b ! i\<rparr>) [0..<?n]"
  have 1: "Zip a b = Inr (Slice ?ps)" by (rule Zip_result)
  have 2: "length ?ps = ?n" by simp
  have 3: "\<forall>i < length ?ps. ?ps ! i = \<lparr>First = elems a ! i, Second = elems b ! i\<rparr>"
    by simp
  have 4: "Unzip (Slice ?ps) =
      Inr (Slice (take (length ?ps) (elems a)), Slice (take (length ?ps) (elems b)))"
    by (simp add: Unzip_result comp_def map_nth_take)
  have 5: "length (elems a) = length (elems b) \<longrightarrow>
      Unzip (Slice ?ps) = Inr (Slice (elems a), Slice (elems b))"
  proof
    assume eq: "length (elems a) = length (elems b)"
    then have "take (length ?ps) (elems a) = elems a" "take (length ?ps) (elems b) = elems b"
      by simp_all
    with 4 show "Unzip (Slice ?ps) = Inr (Slice (elems a), Slice (elems b))"
      by (simp only:)
  qed
  from 1 2 3 4 5 show ?thesis by blast
qed

theorem Zip_Unzip_truncate_witness:
  "bind_panic (Zip (Slice [1, 2, 3 :: int]) (Slice [True, False])) Unzip
     = Inr (Slice [1, 2], Slice [True, False]) \<and>
   bind_panic (Zip (Slice [1, 2, 3 :: int]) (Slice [True, False])) (\<lambda>ps. index ps 1)
     = Inr \<lparr>First = 2, Second = False\<rparr>"
proof -
  from Zip_Unzip_truncate [of "Slice [1, 2, 3 :: int]" "Slice [True, False]"]
  obtain ps where ps: "Zip (Slice [1, 2, 3 :: int]) (Slice [True, False]) = Inr (Slice ps)"
    and n: "length ps = 2"
    and nth: "\<forall>i < length ps.
      ps ! i = \<lparr>First = [1, 2, 3 :: int] ! i, Second = [True, False] ! i\<rparr>"
    and un: "Unzip (Slice ps) =
      Inr (Slice (take (length ps) [1, 2, 3]), Slice (take (length ps) [True, False]))"
    by auto
  from nth n have "ps ! 1 = \<lparr>First = 2, Second = False\<rparr>" by simp
  with ps n un show ?thesis by (simp add: index_def)
qed

subsection \<open>IsSubset\<close>

lemma set_of_loop_lookup:
  "set_of_loop xs m x = (if x \<in> set xs then Some () else m x)"
  by (induction xs arbitrary: m) auto

lemma IsSubset_loop_iff:
  "IsSubset_loop xs m \<longleftrightarrow> (\<forall>x \<in> set xs. m x \<noteq> None)"
  by (induction xs) auto

text \<open>
  C9. \<^verbatim>\<open>IsSubset(a, b)\<close> is true exactly when every element of \<open>a\<close> occurs in \<open>b\<close>;
  so it is true for an empty or nil \<open>a\<close> whatever \<open>b\<close> is, and false for a non-empty
  \<open>a\<close> and an empty or nil \<open>b\<close>.
\<close>

theorem IsSubset_iff_all_in:
  "IsSubset a b = (\<forall>x \<in> set (elems a). x \<in> set (elems b)) \<and>
   IsSubset nil b \<and> IsSubset (Slice []) b \<and>
   (elems a \<noteq> [] \<longrightarrow> \<not> IsSubset a nil \<and> \<not> IsSubset a (Slice []))"
  by (auto simp add: IsSubset_def len_eq_0_iff IsSubset_loop_iff set_of_loop_lookup)

theorem IsSubset_iff_all_in_witness:
  "IsSubset (Slice [2, 1, 2 :: int]) (Slice [1, 2, 3]) \<and>
   \<not> IsSubset (Slice [1, 4 :: int]) (Slice [1, 2, 3]) \<and>
   \<not> IsSubset (Slice [2, 1, 2 :: int]) nil"
  using IsSubset_iff_all_in [of "Slice [2, 1, 2 :: int]" "Slice [1, 2, 3]"]
    IsSubset_iff_all_in [of "Slice [1, 4 :: int]" "Slice [1, 2, 3]"]
  by simp

section \<open>Which operations can panic\<close>

lemma Max_items_result:
  "Max_items items =
     (if len items = 0 then Inl (PanicString ''Max requires at least one argument'')
      else Inr (Max_loop (tl (elems items)) (hd (elems items))))"
  by (simp add: Max_items_def index_first slice_expr_tail)

lemma Min_items_result:
  "Min_items items =
     (if len items = 0 then Inl (PanicString ''Min requires at least one argument'')
      else Inr (Min_loop (tl (elems items)) (hd (elems items))))"
  by (simp add: Min_items_def index_first slice_expr_tail)

lemma MaxSlice_result:
  "MaxSlice items =
     Inr (if len items = 0 then (default, False)
          else (Max_loop (tl (elems items)) (hd (elems items)), True))"
  by (simp add: MaxSlice_def index_first slice_expr_tail)

lemma MinSlice_result:
  "MinSlice items =
     Inr (if len items = 0 then (default, False)
          else (Min_loop (tl (elems items)) (hd (elems items)), True))"
  by (simp add: MinSlice_def index_first slice_expr_tail)

lemma First_elem_result:
  "First_elem items =
     Inr (if len items = 0 then (default, False) else (hd (elems items), True))"
  by (simp add: First_elem_def index_first)

lemma Last_result:
  "Last items =
     Inr (if len items = 0 then (default, False) else (last (elems items), True))"
  by (simp add: Last_def index_last)

lemma Reverse_loop_fills:
  "length res = length xs \<Longrightarrow> k \<le> length xs \<Longrightarrow> j = int (length xs) - 1 - int k \<Longrightarrow>
   Reverse_loop (Slice xs) (map int [k..<length xs]) j (Slice res) =
     Inr (Slice (take k res @ map (\<lambda>i. xs ! (length xs - 1 - i)) [k..<length xs]))"
proof (induction "length xs - k" arbitrary: k j res)
  case 0
  then show ?case by simp
next
  case (Suc d)
  then have k: "k < length xs" by simp
  define v where "v = xs ! (length xs - 1 - k)"
  let ?f = "\<lambda>i. xs ! (length xs - 1 - i)"
  have "0 \<le> j" "j < len (Slice xs)" "nat j = length xs - 1 - k"
    using k Suc.prems(3) by simp_all
  then have idx: "index (Slice xs) j = Inr v"
    by (simp add: index_def v_def)
  have st: "store (Slice res) (int k) v = Inr (Slice (res[k := v]))"
    using k Suc.prems by (simp add: store_Slice)
  have d: "d = length xs - Suc k" using Suc.hyps(2) by simp
  have len': "length (res[k := v]) = length xs" using Suc.prems by simp
  have k': "Suc k \<le> length xs" using k by simp
  have j': "j - 1 = int (length xs) - 1 - int (Suc k)" using Suc.prems(3) by simp
  from k have up: "[k..<length xs] = k # [Suc k..<length xs]" by (rule upt_conv_Cons)
  have "Reverse_loop (Slice xs) (map int [k..<length xs]) j (Slice res) =
      Reverse_loop (Slice xs) (map int [Suc k..<length xs]) (j - 1) (Slice (res[k := v]))"
    unfolding up by (simp add: idx st)
  also have "\<dots> = Inr (Slice (take (Suc k) (res[k := v]) @ map ?f [Suc k..<length xs]))"
    using d len' k' j' by (rule Suc.hyps(1))
  also have "take (Suc k) (res[k := v]) @ map ?f [Suc k..<length xs] =
      take k res @ map ?f [k..<length xs]"
    unfolding up using k Suc.prems by (simp add: take_Suc_conv_app_nth v_def)
  finally show ?case .
qed

lemma Reverse_result:
  "Reverse items = Inr (case items of nil \<Rightarrow> nil | Slice xs \<Rightarrow> Slice (rev xs))"
proof (cases items)
  case nil
  then show ?thesis by (simp add: Reverse_def)
next
  case (Slice xs)
  let ?res = "replicate (length xs) default :: 'a list"
  have fill: "Reverse_loop (Slice xs) (map int [0..<length xs]) (int (length xs) - 1) (Slice ?res)
      = Inr (Slice (take 0 ?res @ map (\<lambda>i. xs ! (length xs - 1 - i)) [0..<length xs]))"
    by (rule Reverse_loop_fills) simp_all
  have rev: "map (\<lambda>i. xs ! (length xs - 1 - i)) [0..<length xs] = rev xs"
  proof (rule nth_equalityI)
    show "length (map (\<lambda>i. xs ! (length xs - 1 - i)) [0..<length xs]) = length (rev xs)"
      by simp
  next
    fix i
    assume "i < length (map (\<lambda>i. xs ! (length xs - 1 - i)) [0..<length xs])"
    then show "map (\<lambda>i. xs ! (length xs - 1 - i)) [0..<length xs] ! i = rev xs ! i"
      by (simp add: rev_nth)
  qed
  from fill have loop: "Reverse_loop (Slice xs) (map int [0..<length xs]) (int (length xs) - 1)
      (Slice ?res) = Inr (Slice (rev xs))"
    by (simp only: rev take_0 append_Nil)
  have "range_int (len (Slice xs)) = map int [0..<length xs]"
    by (simp add: range_int_def)
  moreover have "make_slice (len (Slice xs)) = Inr (Slice ?res)"
    by simp
  ultimately have "Reverse (Slice xs) = Reverse_loop (Slice xs) (map int [0..<length xs])
      (int (length xs) - 1) (Slice ?res)"
    unfolding Reverse_def by (simp only: bind_panic_Inr len_Slice slice.distinct if_False)
  with loop Slice show ?thesis by simp
qed




end
